theory Spec2Isabelle
  imports Complex_Main "HOL-Library.AList"
begin

section \<open>JavaScript values\<close>

text \<open>
  A JavaScript number is an IEEE-754 binary64 value: a finite value (a rational), one of the
  two infinities, or NaN. The two zeros are identified: the code under study only adds,
  divides, compares and serialises numbers, and none of these tells \<open>-0\<close> from \<open>+0\<close> in
  what a caller of the API can observe.
\<close>

datatype jsnum = Fin rat | PInf | NInf | NaN

text \<open>
  The values a snapshot is made of. An object is the list of its own properties in
  insertion order; a snapshot is an object.
\<close>

datatype jsval =
    Undefined
  | Null
  | Bool bool
  | Num jsnum
  | Str string
  | Arr "jsval list"
  | Obj "(string \<times> jsval) list"

type_synonym obj = "(string \<times> jsval) list"

text \<open>\<open>o.k\<close> on an object: the property's value, or \<open>undefined\<close>.\<close>

definition getprop :: "obj \<Rightarrow> string \<Rightarrow> jsval" where
  "getprop ps k = (case map_of ps k of None \<Rightarrow> Undefined | Some v \<Rightarrow> v)"

text \<open>
  \<open>v.k\<close> on any value other than \<open>null\<close> and \<open>undefined\<close> (where it throws, and where
  the code never evaluates it unguarded). The names the code reads (\<open>edgeUp\<close>,
  \<open>edgeDown\<close>, \<open>regime\<close>, \<open>type\<close>) are no members of a primitive's or an array's prototype.
\<close>

fun member :: "jsval \<Rightarrow> string \<Rightarrow> jsval" where
  "member (Obj ps) k = getprop ps k"
| "member _ k = Undefined"

text \<open>ToBoolean.\<close>

fun truthy :: "jsval \<Rightarrow> bool" where
  "truthy Undefined = False"
| "truthy Null = False"
| "truthy (Bool b) = b"
| "truthy (Num (Fin q)) = (q \<noteq> 0)"
| "truthy (Num NaN) = False"
| "truthy (Num _) = True"
| "truthy (Str s) = (s \<noteq> [])"
| "truthy (Arr _) = True"
| "truthy (Obj _) = True"

section \<open>Number arithmetic (IEEE-754 binary64, round to nearest, ties to even)\<close>

text \<open>The number of binary digits of a positive integer.\<close>

function bits :: "int \<Rightarrow> int" where
  "bits n = (if n \<le> 0 then 0 else 1 + bits (n div 2))"
  by auto
termination
  by (relation "measure nat") auto

declare bits.simps [simp del]

text \<open>
  \<open>ilog2 q\<close> is the binary exponent of \<open>q \<noteq> 0\<close>, the \<open>e\<close> with \<open>2^e \<le> |q| < 2^(e+1)\<close>:
  the difference of the bit lengths of numerator and denominator, or one less.
\<close>

definition ilog2_adjust :: "rat \<Rightarrow> int \<Rightarrow> int" where
  "ilog2_adjust a e = (if 2 powi e \<le> a then e else e - 1)"

definition ilog2 :: "rat \<Rightarrow> int" where
  "ilog2 q = (case quotient_of \<bar>q\<bar> of (p, d) \<Rightarrow> ilog2_adjust \<bar>q\<bar> (bits p - bits d))"

text \<open>
  Rounding a non-negative rational \<open>m\<close> to the nearest integer, a tie to the even one:
  \<open>f\<close> is its floor and \<open>r\<close> the fraction left.
\<close>

definition round_tie :: "int \<Rightarrow> rat \<Rightarrow> int" where
  "round_tie f r =
     (if r < 1 / 2 then f
      else if 1 / 2 < r then f + 1
      else if even f then f else f + 1)"

definition round_frac :: "rat \<Rightarrow> int \<Rightarrow> int" where
  "round_frac m f = round_tie f (m - of_int f)"

definition round_even :: "rat \<Rightarrow> int" where
  "round_even m = round_frac m \<lfloor>m\<rfloor>"

text \<open>
  The binary64 value of an exact result \<open>q\<close> with binary exponent \<open>ex\<close>. The significand
  has 53 bits, so the last place is \<open>2^e\<close> with \<open>e = ex - 52\<close>; the exponent of a normal
  number is at least \<open>-1022\<close>, and below it the last place stays \<open>2^-1074\<close> (subnormal
  numbers). \<open>m\<close> is the significand, \<open>|q| / 2^e\<close> rounded. The result is an infinity when
  the rounded magnitude reaches \<open>2^1024\<close>: when \<open>ex\<close> is 1024 or more, or is 1023 and the
  significand rounds up to \<open>2^53\<close>.
\<close>

definition pack64 :: "rat \<Rightarrow> int \<Rightarrow> int \<Rightarrow> int \<Rightarrow> jsnum" where
  "pack64 q ex e m =
     (if 1024 \<le> ex \<or> (ex = 1023 \<and> m = 2 ^ 53)
      then (if 0 < q then PInf else NInf)
      else Fin ((if 0 < q then 1 else - 1) * of_int m * 2 powi e))"

definition scale64 :: "rat \<Rightarrow> int \<Rightarrow> int \<Rightarrow> jsnum" where
  "scale64 q ex e = pack64 q ex e (round_even (\<bar>q\<bar> / 2 powi e))"

definition exp64 :: "rat \<Rightarrow> int \<Rightarrow> jsnum" where
  "exp64 q ex = scale64 q ex (max ex (- 1022) - 52)"

definition round64 :: "rat \<Rightarrow> jsnum" where
  "round64 q = (if q = 0 then Fin 0 else exp64 q (ilog2 q))"

text \<open>A decimal literal of the program text denotes the nearest binary64 value.\<close>

definition literal :: "rat \<Rightarrow> jsnum" where
  "literal q = round64 q"

text \<open>An array length or a counter as a number.\<close>

definition js_number :: "nat \<Rightarrow> jsnum" where
  "js_number n = round64 (of_nat n)"

text \<open>\<open>a + b\<close>\<close>

fun js_add :: "jsnum \<Rightarrow> jsnum \<Rightarrow> jsnum" where
  "js_add (Fin a) (Fin b) = round64 (a + b)"
| "js_add NaN _ = NaN"
| "js_add _ NaN = NaN"
| "js_add PInf NInf = NaN"
| "js_add NInf PInf = NaN"
| "js_add PInf _ = PInf"
| "js_add _ PInf = PInf"
| "js_add NInf _ = NInf"
| "js_add _ NInf = NInf"

text \<open>The sign of a number that is not NaN, and the infinity of a sign.\<close>

fun js_sign :: "jsnum \<Rightarrow> int" where
  "js_sign (Fin a) = (if 0 < a then 1 else if a < 0 then - 1 else 0)"
| "js_sign PInf = 1"
| "js_sign NInf = - 1"
| "js_sign NaN = 0"

definition inf_of_sign :: "int \<Rightarrow> jsnum" where
  "inf_of_sign s = (if 0 < s then PInf else if s < 0 then NInf else NaN)"

text \<open>
  \<open>a / b\<close>. A zero divisor is \<open>+0\<close>: the divisors of the code are a counter and a
  capacity, never a negative zero.
\<close>

fun js_div :: "jsnum \<Rightarrow> jsnum \<Rightarrow> jsnum" where
  "js_div NaN _ = NaN"
| "js_div _ NaN = NaN"
| "js_div (Fin a) (Fin b) = (if b = 0 then inf_of_sign (js_sign (Fin a)) else round64 (a / b))"
| "js_div (Fin a) _ = Fin 0"
| "js_div a (Fin b) = inf_of_sign (js_sign a * (if b < 0 then - 1 else 1))"
| "js_div _ _ = NaN"

text \<open>\<open>a * b\<close>\<close>

fun js_mul :: "jsnum \<Rightarrow> jsnum \<Rightarrow> jsnum" where
  "js_mul NaN _ = NaN"
| "js_mul _ NaN = NaN"
| "js_mul (Fin a) (Fin b) = round64 (a * b)"
| "js_mul a b = inf_of_sign (js_sign a * js_sign b)"

text \<open>\<open>a > b\<close>\<close>

fun js_gt :: "jsnum \<Rightarrow> jsnum \<Rightarrow> bool" where
  "js_gt NaN _ = False"
| "js_gt _ NaN = False"
| "js_gt (Fin a) (Fin b) = (b < a)"
| "js_gt PInf b = (b \<noteq> PInf)"
| "js_gt a NInf = (a \<noteq> NInf)"
| "js_gt _ _ = False"

text \<open>\<open>Math.max(a, b)\<close>\<close>

definition js_max :: "jsnum \<Rightarrow> jsnum \<Rightarrow> jsnum" where
  "js_max a b = (if a = NaN \<or> b = NaN then NaN else if js_gt b a then b else a)"

section \<open>The snapshot store (class DataStore)\<close>

record datastore =
  maxSize :: nat
  buffer :: "obj list"
  startTime :: int

text \<open>\<open>new DataStore(maxSize)\<close>, constructed when the clock reads \<open>now\<close>.\<close>

definition DataStore :: "nat \<Rightarrow> int \<Rightarrow> datastore" where
  "DataStore n now = \<lparr>maxSize = n, buffer = [], startTime = now\<rparr>"

text \<open>
  The object literal \<open>{...snapshot, timestamp: Date.now(), _addedAt: new Date().toISOString()}\<close>:
  the snapshot's own properties in their order, then the two stamps, each replacing a
  property of that name where it stands or else added at the end. \<open>now\<close> is what
  \<open>Date.now()\<close> returns (milliseconds, an integer) and \<open>isoStr\<close> is the ISO string.
\<close>

definition stamp :: "int \<Rightarrow> string \<Rightarrow> obj \<Rightarrow> obj" where
  "stamp now isoStr snapshot =
     AList.update ''_addedAt'' (Str isoStr)
       (AList.update ''timestamp'' (Num (Fin (of_int now))) snapshot)"

text \<open>\<open>add(snapshot)\<close>: push, then shift once if the buffer is longer than \<open>maxSize\<close>.\<close>

definition add :: "datastore \<Rightarrow> int \<Rightarrow> string \<Rightarrow> obj \<Rightarrow> datastore" where
  "add st now isoStr snapshot =
     (let pushed = buffer st @ [stamp now isoStr snapshot]
      in st\<lparr>buffer := (if length pushed > maxSize st then tl pushed else pushed)\<rparr>)"

text \<open>A producer's calls of \<open>add\<close>, each with its own reading of the clock.\<close>

type_synonym add_call = "int \<times> string \<times> obj"

definition add_call :: "datastore \<Rightarrow> add_call \<Rightarrow> datastore" where
  "add_call st c = (case c of (now, isoStr, snapshot) \<Rightarrow> add st now isoStr snapshot)"

definition add_all :: "datastore \<Rightarrow> add_call list \<Rightarrow> datastore" where
  "add_all st cs = foldl add_call st cs"

definition stamped :: "add_call \<Rightarrow> obj" where
  "stamped c = (case c of (now, isoStr, snapshot) \<Rightarrow> stamp now isoStr snapshot)"

text \<open>The oldest retained snapshot, if there is one (\<open>buffer[0]\<close>).\<close>

definition oldest :: "datastore \<Rightarrow> obj option" where
  "oldest st = (case buffer st of [] \<Rightarrow> None | x # _ \<Rightarrow> Some x)"

text \<open>
  \<open>Array.prototype.slice(start, end)\<close> on integer arguments: a negative index counts from
  the end, both are clamped to the array, and an empty range gives the empty array.
\<close>

definition js_slice :: "'a list \<Rightarrow> int \<Rightarrow> int \<Rightarrow> 'a list" where
  "js_slice xs start fin =
     (let len = int (length xs);
          k = (if start < 0 then max (len + start) 0 else min start len);
          final = (if fin < 0 then max (len + fin) 0 else min fin len)
      in take (nat (final - k)) (drop (nat k) xs))"

text \<open>\<open>slice(start)\<close>: the end defaults to the length.\<close>

definition js_slice_from :: "'a list \<Rightarrow> int \<Rightarrow> 'a list" where
  "js_slice_from xs start = js_slice xs start (int (length xs))"

text \<open>
  \<open>getRecent(count)\<close>. The argument of \<open>slice\<close> is \<open>-count\<close>; for \<open>count = 0\<close> that is
  \<open>-0\<close>, which \<open>slice\<close> reads as the index 0.
\<close>

definition getRecent :: "datastore \<Rightarrow> int \<Rightarrow> obj list" where
  "getRecent st count =
     (if int (length (buffer st)) \<le> count then buffer st
      else js_slice_from (buffer st) (- count))"

definition getAll :: "datastore \<Rightarrow> obj list" where
  "getAll st = buffer st"

text \<open>\<open>getLast()\<close>; \<open>None\<close> is \<open>null\<close>.\<close>

definition getLast :: "datastore \<Rightarrow> obj option" where
  "getLast st = (if 0 < length (buffer st) then Some (buffer st ! (length (buffer st) - 1)) else None)"

record stats =
  count :: nat
  maxSize_stat :: nat
  utilization :: jsnum
  uptimeMs :: int
  oldestTimestamp :: jsval
  newestTimestamp :: jsval

text \<open>\<open>getStats()\<close> when the clock reads \<open>now\<close>.\<close>

definition getStats :: "datastore \<Rightarrow> int \<Rightarrow> stats" where
  "getStats st now =
     \<lparr>count = length (buffer st),
      maxSize_stat = maxSize st,
      utilization =
        js_mul (js_div (js_number (length (buffer st))) (js_number (maxSize st))) (Fin 100),
      uptimeMs = now - startTime st,
      oldestTimestamp =
        (if 0 < length (buffer st) then getprop (buffer st ! 0) ''timestamp'' else Null),
      newestTimestamp =
        (if 0 < length (buffer st)
         then getprop (buffer st ! (length (buffer st) - 1)) ''timestamp'' else Null)\<rparr>"

definition clear :: "datastore \<Rightarrow> datastore" where
  "clear st = st\<lparr>buffer := []\<rparr>"

section \<open>The query API (createApiRouter)\<close>

subsection \<open>GET /history\<close>

text \<open>
  \<open>parseInt(x) || d\<close>. The result of \<open>parseInt\<close> on the query parameter is an integer, or
  NaN (\<open>None\<close>) when the parameter is absent or starts with no number; NaN and 0 are falsy.
\<close>

definition or_default :: "int option \<Rightarrow> int \<Rightarrow> int" where
  "or_default parsed d = (case parsed of None \<Rightarrow> d | Some n \<Rightarrow> if n = 0 then d else n)"

record history_response =
  rows :: "obj list"
  total_rows :: nat
  limit_used :: int
  offset_used :: int
  hasMore :: bool

text \<open>
  The handler of \<open>GET /history\<close>; its arguments are the store and \<open>parseInt\<close> of the two
  query parameters.
\<close>

definition history :: "datastore \<Rightarrow> int option \<Rightarrow> int option \<Rightarrow> history_response" where
  "history st parsed_limit parsed_offset =
     (let lim = min (or_default parsed_limit 100) 1000;
          off = or_default parsed_offset 0;
          allData = getAll st;
          total = int (length allData);
          start = max 0 (total - off - lim);
          fin = total - off
      in \<lparr>rows = js_slice allData start fin,
          total_rows = length allData,
          limit_used = lim,
          offset_used = off,
          hasMore = (off + lim < total)\<rparr>)"

subsection \<open>GET /performance\<close>

text \<open>The local variables of the scan.\<close>

record perf_acc =
  buyUpCount_acc :: nat
  buyDownCount_acc :: nat
  noTradeCount_acc :: nat
  edgeUpSum :: jsnum
  edgeUpCount :: nat
  edgeDownSum :: jsnum
  edgeDownCount :: nat
  maxEdgeUp_acc :: jsnum
  maxEdgeDown_acc :: jsnum
  positiveEdgeCount_acc :: nat
  regimeCount :: "(string \<times> nat) list"

definition perf_init :: perf_acc where
  "perf_init =
     \<lparr>buyUpCount_acc = 0, buyDownCount_acc = 0, noTradeCount_acc = 0,
      edgeUpSum = Fin 0, edgeUpCount = 0, edgeDownSum = Fin 0, edgeDownCount = 0,
      maxEdgeUp_acc = NInf, maxEdgeDown_acc = NInf, positiveEdgeCount_acc = 0, regimeCount = []\<rparr>"

text \<open>Count signals.\<close>

definition count_signal :: "perf_acc \<Rightarrow> obj \<Rightarrow> perf_acc" where
  "count_signal a snapshot =
     (let signal = getprop snapshot ''signal''
      in if signal = Str ''BUY UP'' then a\<lparr>buyUpCount_acc := buyUpCount_acc a + 1\<rparr>
         else if signal = Str ''BUY DOWN'' then a\<lparr>buyDownCount_acc := buyDownCount_acc a + 1\<rparr>
         else a\<lparr>noTradeCount_acc := noTradeCount_acc a + 1\<rparr>)"

text \<open>
  Aggregate edges. \<open>typeof v === "number" && isFinite(v)\<close> holds of the finite numbers
  only, the values \<open>Num (Fin q)\<close>.
\<close>

definition aggregate_up :: "perf_acc \<Rightarrow> jsval \<Rightarrow> perf_acc" where
  "aggregate_up a edge =
     (case member edge ''edgeUp'' of
        Num (Fin q) \<Rightarrow>
          a\<lparr>edgeUpSum := js_add (edgeUpSum a) (Fin q),
            edgeUpCount := edgeUpCount a + 1,
            maxEdgeUp_acc := js_max (maxEdgeUp_acc a) (Fin q),
            positiveEdgeCount_acc := (if 0 < q then positiveEdgeCount_acc a + 1 else positiveEdgeCount_acc a)\<rparr>
      | _ \<Rightarrow> a)"

definition aggregate_down :: "perf_acc \<Rightarrow> jsval \<Rightarrow> perf_acc" where
  "aggregate_down a edge =
     (case member edge ''edgeDown'' of
        Num (Fin q) \<Rightarrow>
          a\<lparr>edgeDownSum := js_add (edgeDownSum a) (Fin q),
            edgeDownCount := edgeDownCount a + 1,
            maxEdgeDown_acc := js_max (maxEdgeDown_acc a) (Fin q),
            positiveEdgeCount_acc := (if 0 < q then positiveEdgeCount_acc a + 1 else positiveEdgeCount_acc a)\<rparr>
      | _ \<Rightarrow> a)"

definition aggregate_edges :: "perf_acc \<Rightarrow> obj \<Rightarrow> perf_acc" where
  "aggregate_edges a snapshot =
     (let edge = getprop snapshot ''edge''
      in if truthy edge then aggregate_down (aggregate_up a edge) edge else a)"

text \<open>
  Count regimes: \<open>snapshot.regime || snapshot.regimeInfo?.regime || "UNKNOWN"\<close>, used as
  a property name of the tally. A label that is no string is converted by the language's
  ToString, the parameter \<open>tostr\<close>. The tally is a plain object, here the list of its
  own properties in the order of their first occurrence. Outside this model are the labels
  an object treats specially: names of members of \<open>Object.prototype\<close> (\<open>constructor\<close>,
  \<open>__proto__\<close>), integer-like names, which an object lists first, and object labels whose
  conversion throws. They bear on \<open>regimeDistribution\<close> of a non-empty history only.
\<close>

definition regime_of :: "obj \<Rightarrow> jsval" where
  "regime_of snapshot =
     (let r = getprop snapshot ''regime''
      in if truthy r then r
         else
           let info = getprop snapshot ''regimeInfo'';
               r2 = (if info = Undefined \<or> info = Null then Undefined else member info ''regime'')
           in if truthy r2 then r2 else Str ''UNKNOWN'')"

definition count_regime :: "(jsval \<Rightarrow> string) \<Rightarrow> perf_acc \<Rightarrow> obj \<Rightarrow> perf_acc" where
  "count_regime tostr a snapshot =
     (let regime = (case regime_of snapshot of Str k \<Rightarrow> k | v \<Rightarrow> tostr v);
          seen = (case map_of (regimeCount a) regime of None \<Rightarrow> 0 | Some c \<Rightarrow> c)
      in a\<lparr>regimeCount := AList.update regime (seen + 1) (regimeCount a)\<rparr>)"

text \<open>The body of the loop, and the loop.\<close>

definition scan_step :: "(jsval \<Rightarrow> string) \<Rightarrow> perf_acc \<Rightarrow> obj \<Rightarrow> perf_acc" where
  "scan_step tostr a snapshot =
     count_regime tostr (aggregate_edges (count_signal a snapshot) snapshot) snapshot"

definition scan :: "(jsval \<Rightarrow> string) \<Rightarrow> obj list \<Rightarrow> perf_acc" where
  "scan tostr data = foldl (scan_step tostr) perf_init data"

text \<open>The response, built from the variables of the scan; \<open>None\<close> is \<open>null\<close>.\<close>

record report =
  totalSignals :: nat
  buyUpCount :: nat
  buyDownCount :: nat
  noTradeCount :: nat
  averageEdgeUp :: "jsnum option"
  averageEdgeDown :: "jsnum option"
  maxEdgeUp :: "jsnum option"
  maxEdgeDown :: "jsnum option"
  positiveEdgeCount :: nat
  regimeDistribution :: "(string \<times> nat) list"

definition report_of :: "nat \<Rightarrow> perf_acc \<Rightarrow> report" where
  "report_of n a =
     \<lparr>totalSignals = n,
      buyUpCount = buyUpCount_acc a,
      buyDownCount = buyDownCount_acc a,
      noTradeCount = noTradeCount_acc a,
      averageEdgeUp =
        (if 0 < edgeUpCount a
         then Some (js_div (edgeUpSum a) (js_number (edgeUpCount a))) else None),
      averageEdgeDown =
        (if 0 < edgeDownCount a
         then Some (js_div (edgeDownSum a) (js_number (edgeDownCount a))) else None),
      maxEdgeUp = (if js_gt (maxEdgeUp_acc a) NInf then Some (maxEdgeUp_acc a) else None),
      maxEdgeDown = (if js_gt (maxEdgeDown_acc a) NInf then Some (maxEdgeDown_acc a) else None),
      positiveEdgeCount = positiveEdgeCount_acc a,
      regimeDistribution = regimeCount a\<rparr>"

text \<open>The handler of \<open>GET /performance\<close>, with the early return on an empty store.\<close>

definition performance :: "datastore \<Rightarrow> (jsval \<Rightarrow> string) \<Rightarrow> report" where
  "performance st tostr =
     (let data = getAll st
      in if length data = 0
         then \<lparr>totalSignals = 0, buyUpCount = 0, buyDownCount = 0, noTradeCount = 0,
               averageEdgeUp = None, averageEdgeDown = None,
               maxEdgeUp = None, maxEdgeDown = None,
               positiveEdgeCount = 0, regimeDistribution = []\<rparr>
         else report_of (length data) (scan tostr data))"

section \<open>The push channel (createWebSocketServer)\<close>

text \<open>
  The messages the server sends, each the \<open>JSON.stringify\<close> of an object with a \<open>type\<close>:
  \<open>{type: "snapshot", data}\<close>, \<open>{type: "update", data, timestamp}\<close> and
  \<open>{type: "pong", timestamp}\<close>. Snapshots are plain data, which \<open>JSON.stringify\<close> accepts.
\<close>

datatype message = SnapshotMsg obj | UpdateMsg obj int | PongMsg int

fun msg_type :: "message \<Rightarrow> string" where
  "msg_type (SnapshotMsg _) = ''snapshot''"
| "msg_type (UpdateMsg _ _) = ''update''"
| "msg_type (PongMsg _) = ''pong''"

text \<open>
  A socket object of the transport library. \<open>sendThrows\<close> says whether \<open>send\<close> throws in
  the socket's present condition; \<open>attempted\<close> lists every message \<open>send\<close> was called with,
  \<open>delivered\<close> those it accepted.
\<close>

record websocket =
  readyState :: nat
  sendThrows :: bool
  isAlive :: bool
  attempted :: "message list"
  delivered :: "message list"

text \<open>\<open>ws.send(m)\<close> inside \<open>try\<close>: the socket afterwards, and whether the call returned.\<close>

definition ws_send :: "websocket \<Rightarrow> message \<Rightarrow> websocket \<times> bool" where
  "ws_send w m =
     (if sendThrows w then (w\<lparr>attempted := attempted w @ [m]\<rparr>, False)
      else (w\<lparr>attempted := attempted w @ [m], delivered := delivered w @ [m]\<rparr>, True))"

text \<open>
  The module's state: the socket objects by identity, and \<open>clients\<close>, a \<open>Set\<close> of sockets,
  which iterates in insertion order.
\<close>

type_synonym ws_id = nat

record channel =
  sockets :: "ws_id \<Rightarrow> websocket"
  clients :: "ws_id list"

definition set_add :: "'a \<Rightarrow> 'a list \<Rightarrow> 'a list" where
  "set_add x xs = (if x \<in> set xs then xs else xs @ [x])"

definition set_delete :: "'a \<Rightarrow> 'a list \<Rightarrow> 'a list" where
  "set_delete x xs = removeAll x xs"

definition update_socket :: "channel \<Rightarrow> ws_id \<Rightarrow> (websocket \<Rightarrow> websocket) \<Rightarrow> channel" where
  "update_socket ch ws f = ch\<lparr>sockets := (sockets ch)(ws := f (sockets ch ws))\<rparr>"

text \<open>
  The \<open>connection\<close> handler for the socket \<open>ws\<close>: register it, send the current state if
  there is one (an exception of \<open>send\<close> is caught), mark it alive.
\<close>

definition connection :: "datastore \<Rightarrow> channel \<Rightarrow> ws_id \<Rightarrow> channel" where
  "connection dataStore ch ws =
     (let ch1 = ch\<lparr>clients := set_add ws (clients ch)\<rparr>;
          ch2 = (case getLast dataStore of
                   None \<Rightarrow> ch1
                 | Some current \<Rightarrow> update_socket ch1 ws (\<lambda>w. fst (ws_send w (SnapshotMsg current))))
      in update_socket ch2 ws (\<lambda>w. w\<lparr>isAlive := True\<rparr>))"

text \<open>
  The \<open>message\<close> handler. \<open>parsed\<close> is the result of \<open>JSON.parse\<close>, \<open>None\<close> when it
  throws; reading \<open>.type\<close> of \<open>null\<close> throws too. Every exception is caught.
\<close>

definition on_message :: "channel \<Rightarrow> ws_id \<Rightarrow> jsval option \<Rightarrow> int \<Rightarrow> channel" where
  "on_message ch ws parsed now =
     (case parsed of
        None \<Rightarrow> ch
      | Some data \<Rightarrow>
          if data = Null \<or> data = Undefined then ch
          else if member data ''type'' = Str ''ping''
          then update_socket ch ws (\<lambda>w. fst (ws_send w (PongMsg now)))
          else ch)"

text \<open>The \<open>close\<close> and \<open>error\<close> handlers.\<close>

definition on_close :: "channel \<Rightarrow> ws_id \<Rightarrow> channel" where
  "on_close ch ws = ch\<lparr>clients := set_delete ws (clients ch)\<rparr>"

definition on_error :: "channel \<Rightarrow> ws_id \<Rightarrow> channel" where
  "on_error ch ws = ch\<lparr>clients := set_delete ws (clients ch)\<rparr>"

text \<open>
  \<open>broadcast(data)\<close> when the clock reads \<open>now\<close>: one pass over \<open>clients\<close> with the two
  counters. The body of \<open>clients.forEach\<close>:
\<close>

type_synonym broadcast_state = "(ws_id \<Rightarrow> websocket) \<times> nat \<times> nat"

definition broadcast_client :: "message \<Rightarrow> broadcast_state \<Rightarrow> ws_id \<Rightarrow> broadcast_state" where
  "broadcast_client m s client =
     (case s of (socks, successCount, failCount) \<Rightarrow>
        if readyState (socks client) = 1
        then (case ws_send (socks client) m of
                (w, True) \<Rightarrow> (socks(client := w), successCount + 1, failCount)
              | (w, False) \<Rightarrow> (socks(client := w), successCount, failCount + 1))
        else s)"

definition broadcast :: "channel \<Rightarrow> obj \<Rightarrow> int \<Rightarrow> channel \<times> nat \<times> nat" where
  "broadcast ch data now =
     (case foldl (broadcast_client (UpdateMsg data now)) (sockets ch, 0, 0) (clients ch) of
        (socks, successCount, failCount) \<Rightarrow> (ch\<lparr>sockets := socks\<rparr>, successCount, failCount))"

subsection \<open>The server over time\<close>

text \<open>
  What happens to a running server: the producer appends and broadcasts, sockets connect,
  send messages, close and fail, and a socket's transport changes its condition.
\<close>

datatype event =
    Add int string obj
  | Broadcast obj int
  | Connect ws_id
  | Message ws_id "jsval option" int
  | Close ws_id
  | Error ws_id
  | Transport ws_id nat bool

record server =
  store :: datastore
  chan :: channel

fun step :: "server \<Rightarrow> event \<Rightarrow> server" where
  "step s (Add now isoStr snapshot) = s\<lparr>store := add (store s) now isoStr snapshot\<rparr>"
| "step s (Broadcast data now) = s\<lparr>chan := fst (broadcast (chan s) data now)\<rparr>"
| "step s (Connect ws) = s\<lparr>chan := connection (store s) (chan s) ws\<rparr>"
| "step s (Message ws parsed now) = s\<lparr>chan := on_message (chan s) ws parsed now\<rparr>"
| "step s (Close ws) = s\<lparr>chan := on_close (chan s) ws\<rparr>"
| "step s (Error ws) = s\<lparr>chan := on_error (chan s) ws\<rparr>"
| "step s (Transport ws rs throws) =
     s\<lparr>chan := update_socket (chan s) ws (\<lambda>w. w\<lparr>readyState := rs, sendThrows := throws\<rparr>)\<rparr>"

definition run :: "server \<Rightarrow> event list \<Rightarrow> server" where
  "run s evs = foldl step s evs"

section \<open>Notions used in the statements\<close>

text \<open>
  The finite number at \<open>snapshot.edge.k\<close>, if there is one, and the finite numbers of
  channel \<open>k\<close> in a history, oldest first: the values the aggregate report is about.
\<close>

definition finite_edge :: "string \<Rightarrow> obj \<Rightarrow> rat option" where
  "finite_edge k snapshot =
     (case member (getprop snapshot ''edge'') k of Num (Fin q) \<Rightarrow> Some q | _ \<Rightarrow> None)"

definition edge_values :: "string \<Rightarrow> obj list \<Rightarrow> rat list" where
  "edge_values k data = List.map_filter (finite_edge k) data"

text \<open>The snapshot's signal is the label.\<close>

definition signal_is :: "string \<Rightarrow> obj \<Rightarrow> bool" where
  "signal_is label snapshot = (getprop snapshot ''signal'' = Str label)"

text \<open>One for a strictly positive value, zero otherwise.\<close>

definition positive :: "rat option \<Rightarrow> nat" where
  "positive v = (case v of Some q \<Rightarrow> if 0 < q then 1 else 0 | None \<Rightarrow> 0)"

text \<open>The socket is in the state \<open>WebSocket.OPEN\<close>.\<close>

definition is_open :: "websocket \<Rightarrow> bool" where
  "is_open w = (readyState w = 1)"

text \<open>None of the messages is of type \<open>"snapshot"\<close>.\<close>

definition no_snapshot :: "message list \<Rightarrow> bool" where
  "no_snapshot ms = list_all (\<lambda>m. msg_type m \<noteq> ''snapshot'') ms"

section \<open>Example stores\<close>

text \<open>
  The labels of the examples are strings, which ToString leaves alone; for the parameter
  of the report the examples take the conversion of a plain object.
\<close>

definition object_label :: "jsval \<Rightarrow> string" where
  "object_label v = ''[object Object]''"

text \<open>
  The snapshots \<open>{signal: "BUY UP", edge: {edgeUp: 0.05, edgeDown: -0.02}}\<close> and
  \<open>{signal: "NO TRADE", edge: {edgeUp: 0.10}}\<close>, and one whose \<open>edgeUp\<close> is NaN.
\<close>

definition snap_buy_up :: obj where
  "snap_buy_up =
     [(''signal'', Str ''BUY UP''),
      (''edge'', Obj [(''edgeUp'', Num (literal (5 / 100))),
                      (''edgeDown'', Num (literal (- (2 / 100))))])]"

definition snap_no_trade :: obj where
  "snap_no_trade =
     [(''signal'', Str ''NO TRADE''), (''edge'', Obj [(''edgeUp'', Num (literal (10 / 100)))])]"

definition snap_nan :: obj where
  "snap_nan = [(''signal'', Str ''NO TRADE''), (''edge'', Obj [(''edgeUp'', Num NaN)])]"

text \<open>The two snapshots appended to a store of the default capacity.\<close>

definition two :: datastore where
  "two = add (add (DataStore 3600 0) 1 ''t1'' snap_buy_up) 2 ''t2'' snap_no_trade"


text \<open>Three snapshots appended to a store of the default capacity.\<close>

definition three :: datastore where
  "three =
     add (add (add (DataStore 3600 0) 1 ''t1'' [(''value'', Num (Fin 1))])
        2 ''t2'' [(''value'', Num (Fin 2))]) 3 ''t3'' [(''value'', Num (Fin 3))]"

section \<open>Example channels\<close>

text \<open>A new socket, open, on which nothing was sent.\<close>

definition open_socket :: websocket where
  "open_socket =
     \<lparr>readyState = 1, sendThrows = False, isAlive = True, attempted = [], delivered = []\<rparr>"

text \<open>Three connected consumers, all open; \<open>send\<close> throws on the second.\<close>

definition three_clients :: channel where
  "three_clients =
     \<lparr>sockets = (\<lambda>ws. if ws = 20 then open_socket\<lparr>sendThrows := True\<rparr> else open_socket),
      clients = [10, 20, 30]\<rparr>"

text \<open>A server with two snapshots in the store and the three consumers.\<close>

definition running :: server where
  "running = \<lparr>store = two, chan = three_clients\<rparr>"

section \<open>The example stores, evaluated\<close>

lemma buffer_three:
  "buffer three =
     [[(''value'', Num (Fin 1)), (''timestamp'', Num (Fin 1)), (''_addedAt'', Str ''t1'')],
      [(''value'', Num (Fin 2)), (''timestamp'', Num (Fin 2)), (''_addedAt'', Str ''t2'')],
      [(''value'', Num (Fin 3)), (''timestamp'', Num (Fin 3)), (''_addedAt'', Str ''t3'')]]"
  by (simp add: three_def add_def DataStore_def stamp_def)

lemma length_three: "length (buffer three) = 3"
  by (simp add: buffer_three)

lemma maxSize_three: "maxSize three = 3600"
  by (simp add: three_def add_def DataStore_def)

lemma startTime_three: "startTime three = 0"
  by (simp add: three_def add_def DataStore_def)

section \<open>Properties of the number arithmetic\<close>

text \<open>
  Rounding at work: \<open>2^53 + 1\<close> and \<open>2^53 + 3\<close> lie halfway between two binary64
  values and go to the one with the even significand; a third is rounded in its 53rd bit.
\<close>

lemma round64_tie_to_even:
  "round64 9007199254740993 = Fin 9007199254740992"
  "round64 9007199254740995 = Fin 9007199254740996"
  by code_simp+

lemma round64_third: "round64 (- (1 / 3)) = Fin (- (6004799503160661 / 18014398509481984))"
  by code_simp

lemma bits_pos: "0 < n \<Longrightarrow> bits n = 1 + bits (n div 2)"
  by (subst bits.simps) simp

lemma bits_nonpos: "n \<le> 0 \<Longrightarrow> bits n = 0"
  by (subst bits.simps) simp

lemma bits_bounds: "0 < n \<Longrightarrow> 1 \<le> bits n \<and> 2 ^ nat (bits n - 1) \<le> n \<and> n < 2 ^ nat (bits n)"
proof (induction n rule: bits.induct)
  case (1 n)
  show ?case
  proof (cases "n = 1")
    case True
    then show ?thesis by (simp add: bits_pos bits_nonpos)
  next
    case False
    with "1.prems" have h: "0 < n div 2" by simp
    from "1.IH" "1.prems" h
    have ih: "1 \<le> bits (n div 2)" "2 ^ nat (bits (n div 2) - 1) \<le> n div 2"
      "n div 2 < 2 ^ nat (bits (n div 2))"
      by simp_all
    have b: "bits n = 1 + bits (n div 2)"
      using "1.prems" by (rule bits_pos)
    have e: "nat (bits n - 1) = Suc (nat (bits (n div 2) - 1))"
      using ih(1) b by simp
    have e2: "nat (bits n) = Suc (nat (bits (n div 2)))"
      using ih(1) b by simp
    have "2 * 2 ^ nat (bits (n div 2) - 1) \<le> 2 * (n div 2)"
      using ih(2) by simp
    also have "\<dots> \<le> n" by simp
    finally have lo: "2 ^ nat (bits n - 1) \<le> n"
      by (simp add: e)
    have "n div 2 + 1 \<le> 2 ^ nat (bits (n div 2))"
      using ih(3) by simp
    then have "2 * (n div 2 + 1) \<le> 2 * 2 ^ nat (bits (n div 2))"
      by simp
    moreover have "n < 2 * (n div 2 + 1)" by presburger
    ultimately have hi: "n < 2 ^ nat (bits n)"
      by (simp add: e2)
    from lo hi b ih(1) show ?thesis by simp
  qed
qed

lemma ilog2_le:
  assumes "q \<noteq> 0"
  shows "2 powi (ilog2 q) \<le> \<bar>q\<bar>"
proof -
  obtain p d where pd: "quotient_of \<bar>q\<bar> = (p, d)"
    by (cases "quotient_of \<bar>q\<bar>")
  have d: "0 < d" using pd by (rule quotient_of_denom_pos)
  have q: "\<bar>q\<bar> = of_int p / of_int d"
    using pd by (rule quotient_of_div)
  have "0 < \<bar>q\<bar>" using assms by simp
  with q d have p: "0 < p"
    by (simp add: zero_less_divide_iff)
  let ?e = "bits p - bits d"
  show ?thesis
  proof (cases "2 powi ?e \<le> \<bar>q\<bar>")
    case True
    then show ?thesis by (simp add: ilog2_def pd ilog2_adjust_def)
  next
    case False
    then have il: "ilog2 q = ?e - 1"
      by (simp add: ilog2_def pd ilog2_adjust_def)
    from bits_bounds [OF p] have bp: "1 \<le> bits p" "2 ^ nat (bits p - 1) \<le> p" by simp_all
    from bits_bounds [OF d] have bd: "1 \<le> bits d" "d < 2 ^ nat (bits d)" by simp_all
    have "?e - 1 = (bits p - 1) - bits d" by simp
    then have "(2::rat) powi (?e - 1) = 2 powi ((bits p - 1) - bits d)" by (rule arg_cong)
    also have "\<dots> = 2 powi (bits p - 1) / 2 powi (bits d)"
      by (rule power_int_diff) simp
    also have "\<dots> = 2 ^ nat (bits p - 1) / 2 ^ nat (bits d)"
      using bp(1) bd(1) by (simp add: power_int_def)
    also have "\<dots> \<le> of_int p / of_int d"
    proof -
      have a: "(2::rat) ^ nat (bits p - 1) \<le> of_int p"
        using bp(2) by (metis of_int_le_iff of_int_numeral of_int_power)
      have b: "(of_int d :: rat) \<le> 2 ^ nat (bits d)"
        using bd(2) by (metis less_imp_le of_int_le_iff of_int_numeral of_int_power)
      have c: "(0::rat) < of_int d" using d by simp
      show ?thesis
        using a b c p by (intro frac_le) simp_all
    qed
    finally show ?thesis by (simp add: il q)
  qed
qed

lemma round_even_ge1: "1 \<le> m \<Longrightarrow> 1 \<le> round_even m"
proof -
  assume "1 \<le> m"
  then have "1 \<le> \<lfloor>m\<rfloor>" by simp
  then show ?thesis
    by (simp add: round_even_def round_frac_def round_tie_def)
qed

lemma round64_not_NaN: "round64 q \<noteq> NaN"
  by (simp add: round64_def exp64_def scale64_def pack64_def)

lemma round64_ge1_nonzero:
  assumes "1 \<le> q"
  shows "round64 q \<noteq> Fin 0"
proof -
  have q0: "q \<noteq> 0" "0 < q" "\<bar>q\<bar> = q" using assms by simp_all
  let ?e = "max (ilog2 q) (- 1022) - 52"
  have "(2::rat) powi ?e \<le> q"
  proof (cases "- 1022 \<le> ilog2 q")
    case True
    then have "(2::rat) powi ?e \<le> 2 powi (ilog2 q)"
      by (intro power_int_increasing) simp_all
    also have "\<dots> \<le> q" using ilog2_le [OF q0(1)] q0(3) by simp
    finally show ?thesis .
  next
    case False
    then have "?e \<le> 0" by simp
    then have "(2::rat) powi ?e \<le> 2 powi 0"
      by (intro power_int_increasing) simp_all
    with assms show ?thesis by simp
  qed
  then have "1 \<le> q / 2 powi ?e"
    by (simp add: pos_le_divide_eq)
  then have m: "1 \<le> round_even (q / 2 powi ?e)" by (rule round_even_ge1)
  then have "of_int (round_even (q / 2 powi ?e)) * (2::rat) powi ?e \<noteq> 0"
    by simp
  then show ?thesis
    using q0 by (simp add: round64_def exp64_def scale64_def pack64_def)
qed

lemma js_number_0: "js_number 0 = Fin 0"
  by (simp add: js_number_def round64_def)

lemma zero_div_js_number: "0 < n \<Longrightarrow> js_div (Fin 0) (js_number n) = Fin 0"
proof -
  assume "0 < n"
  then have "(1::rat) \<le> of_nat n" by simp
  then have nz: "js_number n \<noteq> Fin 0"
    unfolding js_number_def by (rule round64_ge1_nonzero)
  have nn: "js_number n \<noteq> NaN"
    unfolding js_number_def by (rule round64_not_NaN)
  show ?thesis
  proof (cases "js_number n")
    case (Fin b)
    with nz have "b \<noteq> 0" by simp
    with Fin show ?thesis by (simp add: round64_def)
  next
    case NaN
    with nn show ?thesis by simp
  qed simp_all
qed

section \<open>The store retains the last snapshots, oldest first\<close>

lemma add_all_snoc: "add_all st (cs @ [c]) = add_call (add_all st cs) c"
  by (simp add: add_all_def)

lemma maxSize_add_all: "maxSize (add_all st cs) = maxSize st"
  by (induction cs rule: rev_induct)
     (simp_all add: add_all_def add_call_def add_def Let_def split: prod.splits)

lemma buffer_add_all:
  "buffer (add_all (DataStore n t0) cs) = drop (length cs - n) (map stamped cs)"
proof (induction cs rule: rev_induct)
  case Nil
  show ?case by (simp add: add_all_def DataStore_def)
next
  case (snoc c cs)
  let ?st = "add_all (DataStore n t0) cs"
  have m: "maxSize ?st = n"
    by (simp add: maxSize_add_all DataStore_def)
  have len: "length (buffer ?st) = min (length cs) n"
    by (simp add: snoc.IH)
  have step: "buffer (add_call ?st c) =
      (if length (buffer ?st) < n then buffer ?st @ [stamped c]
       else tl (buffer ?st @ [stamped c]))"
    by (cases c) (simp add: add_call_def add_def stamped_def Let_def m less_Suc_eq_le not_less)
  show ?case
  proof (cases "length cs < n")
    case True
    then show ?thesis
      by (simp add: add_all_snoc step len snoc.IH)
  next
    case False
    then have ge: "n \<le> length cs" by simp
    have "tl (drop (length cs - n) (map stamped cs) @ [stamped c]) =
          drop (Suc (length cs) - n) (map stamped cs @ [stamped c])"
    proof (cases "n = 0")
      case True
      then show ?thesis by simp
    next
      case False
      with ge have "length cs - n < length cs" by simp
      then have ne: "drop (length cs - n) (map stamped cs) \<noteq> []" by simp
      have "Suc (length cs) - n = Suc (length cs - n)"
        using ge by simp
      then show ?thesis
        using ne ge by (simp add: drop_Suc tl_drop flip: drop_tl)
    qed
    with False ge show ?thesis
      by (simp add: add_all_snoc step len snoc.IH)
  qed
qed

text \<open>
  C1. After any sequence \<open>cs\<close> of calls of \<open>add\<close> on a new store of capacity \<open>N\<close>, the
  buffer holds \<open>min (length cs) N\<close> snapshots, and so after each call of the sequence
  (the store after the first \<open>j\<close> calls holds \<open>min j N\<close>). The buffer is the stamped
  snapshots in the order of their insertion with the first \<open>length cs - N\<close> dropped, so
  eviction is first in, first out. When more than \<open>N\<close> snapshots were appended, the oldest
  one retained is the one appended by call number \<open>length cs - N + 1\<close>, which is
  \<open>cs ! (length cs - N)\<close>; a store of capacity 0 retains none.
\<close>

theorem add_retains_last_maxSize:
  "length (buffer (add_all (DataStore N t0) cs)) = min (length cs) N \<and>
   buffer (add_all (DataStore N t0) cs) = drop (length cs - N) (map stamped cs) \<and>
   (\<forall>j \<le> length cs. length (buffer (add_all (DataStore N t0) (take j cs))) = min j N) \<and>
   (N < length cs \<longrightarrow>
      oldest (add_all (DataStore N t0) cs) =
        (if N = 0 then None else Some (stamped (cs ! (length cs - N)))))"
proof -
  have "oldest (add_all (DataStore N t0) cs) = Some (stamped (cs ! (length cs - N)))"
    if "N < length cs" "N \<noteq> 0"
  proof -
    from that have lt: "length cs - N < length (map stamped cs)" by simp
    show ?thesis
      using lt by (simp add: oldest_def buffer_add_all flip: Cons_nth_drop_Suc)
  qed
  moreover have "oldest (add_all (DataStore 0 t0) cs) = None"
    by (simp add: oldest_def buffer_add_all)
  ultimately show ?thesis
    by (auto simp: buffer_add_all min_def)
qed

theorem add_retains_last_maxSize_witness:
  "oldest (add_all (DataStore 2 0)
      [(1, ''t1'', [(''value'', Num (Fin 1))]),
       (2, ''t2'', [(''value'', Num (Fin 2))]),
       (3, ''t3'', [(''value'', Num (Fin 3))])]) =
     Some [(''value'', Num (Fin 2)), (''timestamp'', Num (Fin 2)), (''_addedAt'', Str ''t2'')] \<and>
   length (buffer (add_all (DataStore 2 0)
      [(1, ''t1'', [(''value'', Num (Fin 1))]),
       (2, ''t2'', [(''value'', Num (Fin 2))]),
       (3, ''t3'', [(''value'', Num (Fin 3))])])) = 2"
  using add_retains_last_maxSize [of 2 0
      "[(1, ''t1'', [(''value'', Num (Fin 1))]),
        (2, ''t2'', [(''value'', Num (Fin 2))]),
        (3, ''t3'', [(''value'', Num (Fin 3))])]"]
  by (simp add: stamped_def stamp_def)

section \<open>Reading the store\<close>

lemma js_slice_from_neg:
  "0 < c \<Longrightarrow> c < int (length xs) \<Longrightarrow> js_slice_from xs (- c) = drop (length xs - nat c) xs"
  by (simp add: js_slice_from_def js_slice_def Let_def nat_diff_distrib)

lemma getRecent_positive:
  "0 < c \<Longrightarrow> getRecent st c = drop (length (buffer st) - nat c) (buffer st)"
  by (simp add: getRecent_def js_slice_from_neg)

lemma getRecent_positive_length:
  "0 < c \<Longrightarrow> length (getRecent st c) = min (nat c) (length (buffer st))"
  by (simp add: getRecent_positive)

lemma getRecent_zero: "getRecent st 0 = buffer st"
  by (simp add: getRecent_def js_slice_from_def js_slice_def)

text \<open>
  C2. \<open>getRecent(c)\<close> is to return the last \<open>min c (length buffer)\<close> snapshots, which for
  \<open>c = 0\<close> is none. On a store holding one snapshot, \<open>getRecent(0)\<close> returns that
  snapshot: \<open>0 \<ge> 1\<close> fails, and \<open>slice(-0)\<close> is \<open>slice(0)\<close>, the whole buffer. For
  \<open>c > 0\<close> the result is as claimed (\<open>getRecent_positive\<close>).
\<close>

theorem getRecent_zero_returns_all:
  "getRecent (add (DataStore 3600 0) 1 ''t1'' [(''value'', Num (Fin 1))]) 0 =
     [[(''value'', Num (Fin 1)), (''timestamp'', Num (Fin 1)), (''_addedAt'', Str ''t1'')]]"
  by (simp add: getRecent_zero add_def DataStore_def stamp_def)

section \<open>Pagination of GET /history\<close>

lemma history_in_range:
  assumes "0 \<le> or_default p 0" "or_default p 0 \<le> int (length (buffer st))"
    and "0 < min (or_default l 100) 1000"
  shows "rows (history st l p) =
           drop (length (buffer st) - nat (or_default p 0) - nat (min (or_default l 100) 1000))
             (take (length (buffer st) - nat (or_default p 0)) (buffer st))"
    and "int (length (rows (history st l p))) =
           min (min (or_default l 100) 1000) (max 0 (int (length (buffer st)) - or_default p 0))"
    and "hasMore (history st l p) =
           (or_default p 0 + min (or_default l 100) 1000 < int (length (buffer st)))"
proof -
  let ?n = "length (buffer st)"
  let ?off = "or_default p 0"
  let ?lim = "min (or_default l 100) 1000"
  have r: "rows (history st l p) =
      js_slice (buffer st) (max 0 (int ?n - ?off - ?lim)) (int ?n - ?off)"
    by (simp add: history_def getAll_def Let_def)
  have s: "js_slice (buffer st) (max 0 (int ?n - ?off - ?lim)) (int ?n - ?off) =
      take (nat (int ?n - ?off - max 0 (int ?n - ?off - ?lim)))
        (drop (nat (max 0 (int ?n - ?off - ?lim))) (buffer st))"
    using assms by (simp add: js_slice_def Let_def min_def max_def)
  have d: "nat (max 0 (int ?n - ?off - ?lim)) = ?n - nat ?off - nat ?lim"
    using assms by (auto simp: max_def nat_diff_distrib)
  have t: "nat (int ?n - ?off - max 0 (int ?n - ?off - ?lim)) =
      (?n - nat ?off) - (?n - nat ?off - nat ?lim)"
    using assms by (auto simp: max_def)
  show "rows (history st l p) =
      drop (?n - nat ?off - nat ?lim) (take (?n - nat ?off) (buffer st))"
    by (simp only: r s d t drop_take)
  then show "int (length (rows (history st l p))) = min ?lim (max 0 (int ?n - ?off))"
    using assms by (auto simp: min_def max_def)
  show "hasMore (history st l p) = (?off + ?lim < int ?n)"
    by (simp add: history_def getAll_def Let_def)
qed

text \<open>
  C3. The response is to hold \<open>min limit (max 0 (total - offset))\<close> rows. With three
  snapshots in the store, \<open>GET /history?offset=4\<close> skips more rows than there are, so no
  row is left; the handler computes \<open>end = -1\<close>, which \<open>slice\<close> counts from the end, and
  returns the two oldest snapshots. For \<open>0 \<le> offset \<le> total\<close> and a positive limit the
  response is as claimed (\<open>history_in_range\<close>).
\<close>

theorem history_offset_beyond_total:
  "rows (history three None (Some 4)) =
     [[(''value'', Num (Fin 1)), (''timestamp'', Num (Fin 1)), (''_addedAt'', Str ''t1'')],
      [(''value'', Num (Fin 2)), (''timestamp'', Num (Fin 2)), (''_addedAt'', Str ''t2'')]] \<and>
   total_rows (history three None (Some 4)) = 3 \<and>
   limit_used (history three None (Some 4)) = 100 \<and>
   offset_used (history three None (Some 4)) = 4 \<and>
   hasMore (history three None (Some 4)) = False"
proof -
  have h: "history three None (Some 4) =
      \<lparr>rows = js_slice (buffer three) 0 (- 1), total_rows = 3, limit_used = 100,
       offset_used = 4, hasMore = False\<rparr>"
    by (simp add: history_def getAll_def or_default_def length_three)
  have s: "js_slice (buffer three) 0 (- 1) = take 2 (buffer three)"
    by (simp add: js_slice_def length_three)
  have t: "take 2 (buffer three) =
     [[(''value'', Num (Fin 1)), (''timestamp'', Num (Fin 1)), (''_addedAt'', Str ''t1'')],
      [(''value'', Num (Fin 2)), (''timestamp'', Num (Fin 2)), (''_addedAt'', Str ''t2'')]]"
    by (simp add: buffer_three)
  show ?thesis
    by (simp add: h s t)
qed

section \<open>Clearing the store\<close>

text \<open>
  C10 (as amended). For every store, \<open>clear()\<close> empties the buffer and leaves \<open>maxSize\<close>
  and \<open>startTime\<close> as they were, and \<open>getStats()\<close> afterwards reports count 0, the same
  capacity, the uptime since construction and \<open>null\<close> timestamps. The utilization it
  reports is 0 when the capacity is not 0, and NaN (\<open>0 / 0 * 100\<close>) when it is 0.
\<close>

theorem clear_then_stats:
  "buffer (clear st) = [] \<and> maxSize (clear st) = maxSize st \<and> startTime (clear st) = startTime st \<and>
   count (getStats (clear st) now) = 0 \<and>
   maxSize_stat (getStats (clear st) now) = maxSize st \<and>
   uptimeMs (getStats (clear st) now) = now - startTime st \<and>
   oldestTimestamp (getStats (clear st) now) = Null \<and>
   newestTimestamp (getStats (clear st) now) = Null \<and>
   (maxSize st \<noteq> 0 \<longrightarrow> utilization (getStats (clear st) now) = Fin 0) \<and>
   (maxSize st = 0 \<longrightarrow> utilization (getStats (clear st) now) = NaN)"
  by (simp add: clear_def getStats_def zero_div_js_number js_number_0 round64_def inf_of_sign_def)

theorem clear_then_stats_witness:
  "buffer (clear three) = [] \<and> maxSize (clear three) = 3600 \<and> startTime (clear three) = 0 \<and>
   count (getStats (clear three) 10) = 0 \<and>
   maxSize_stat (getStats (clear three) 10) = 3600 \<and>
   uptimeMs (getStats (clear three) 10) = 10 \<and>
   oldestTimestamp (getStats (clear three) 10) = Null \<and>
   newestTimestamp (getStats (clear three) 10) = Null \<and>
   utilization (getStats (clear three) 10) = Fin 0 \<and>
   count (getStats (clear (DataStore 0 5)) 10) = 0 \<and>
   uptimeMs (getStats (clear (DataStore 0 5)) 10) = 5 \<and>
   utilization (getStats (clear (DataStore 0 5)) 10) = NaN"
  using clear_then_stats [of three 10] clear_then_stats [of "DataStore 0 5" 10]
  by (simp add: maxSize_three startTime_three DataStore_def)

text \<open>
  C10 as stated fails for a store of capacity 0: the utilization is \<open>0 / 0 * 100\<close>, which
  is NaN.
\<close>

theorem clear_stats_capacity_zero:
  "utilization (getStats (clear (DataStore 0 0)) 10) = NaN"
  by (simp add: clear_def getStats_def DataStore_def js_number_0 inf_of_sign_def)

section \<open>The aggregate report\<close>

subsection \<open>One step of the scan\<close>

lemma member_falsy: "\<not> truthy v \<Longrightarrow> member v k = Undefined"
  by (cases v) simp_all

lemma count_regime_fields:
  "buyUpCount_acc (count_regime tostr a s) = buyUpCount_acc a"
  "buyDownCount_acc (count_regime tostr a s) = buyDownCount_acc a"
  "noTradeCount_acc (count_regime tostr a s) = noTradeCount_acc a"
  "edgeUpSum (count_regime tostr a s) = edgeUpSum a"
  "edgeUpCount (count_regime tostr a s) = edgeUpCount a"
  "edgeDownSum (count_regime tostr a s) = edgeDownSum a"
  "edgeDownCount (count_regime tostr a s) = edgeDownCount a"
  "maxEdgeUp_acc (count_regime tostr a s) = maxEdgeUp_acc a"
  "maxEdgeDown_acc (count_regime tostr a s) = maxEdgeDown_acc a"
  "positiveEdgeCount_acc (count_regime tostr a s) = positiveEdgeCount_acc a"
  by (simp_all add: count_regime_def Let_def)

lemma count_signal_fields:
  "edgeUpSum (count_signal a s) = edgeUpSum a"
  "edgeUpCount (count_signal a s) = edgeUpCount a"
  "edgeDownSum (count_signal a s) = edgeDownSum a"
  "edgeDownCount (count_signal a s) = edgeDownCount a"
  "maxEdgeUp_acc (count_signal a s) = maxEdgeUp_acc a"
  "maxEdgeDown_acc (count_signal a s) = maxEdgeDown_acc a"
  "positiveEdgeCount_acc (count_signal a s) = positiveEdgeCount_acc a"
  by (simp_all add: count_signal_def Let_def)

lemma count_signal_counts:
  "buyUpCount_acc (count_signal a s) = buyUpCount_acc a + (if signal_is ''BUY UP'' s then 1 else 0)"
  "buyDownCount_acc (count_signal a s) =
     buyDownCount_acc a + (if signal_is ''BUY DOWN'' s then 1 else 0)"
  "noTradeCount_acc (count_signal a s) =
     noTradeCount_acc a + (if signal_is ''BUY UP'' s \<or> signal_is ''BUY DOWN'' s then 0 else 1)"
  by (simp_all add: count_signal_def signal_is_def Let_def)

lemma aggregate_edges_counts:
  "buyUpCount_acc (aggregate_edges a s) = buyUpCount_acc a"
  "buyDownCount_acc (aggregate_edges a s) = buyDownCount_acc a"
  "noTradeCount_acc (aggregate_edges a s) = noTradeCount_acc a"
  by (simp_all add: aggregate_edges_def aggregate_up_def aggregate_down_def Let_def
      split: jsval.splits jsnum.splits)

lemma aggregate_edges_up:
  "edgeUpSum (aggregate_edges a s) =
     (case finite_edge ''edgeUp'' s of None \<Rightarrow> edgeUpSum a
      | Some q \<Rightarrow> js_add (edgeUpSum a) (Fin q))"
  "edgeUpCount (aggregate_edges a s) =
     (case finite_edge ''edgeUp'' s of None \<Rightarrow> edgeUpCount a | Some q \<Rightarrow> edgeUpCount a + 1)"
  "maxEdgeUp_acc (aggregate_edges a s) =
     (case finite_edge ''edgeUp'' s of None \<Rightarrow> maxEdgeUp_acc a
      | Some q \<Rightarrow> js_max (maxEdgeUp_acc a) (Fin q))"
  by (simp_all add: aggregate_edges_def aggregate_up_def aggregate_down_def finite_edge_def
      member_falsy Let_def split: jsval.splits jsnum.splits)

lemma aggregate_edges_down:
  "edgeDownSum (aggregate_edges a s) =
     (case finite_edge ''edgeDown'' s of None \<Rightarrow> edgeDownSum a
      | Some q \<Rightarrow> js_add (edgeDownSum a) (Fin q))"
  "edgeDownCount (aggregate_edges a s) =
     (case finite_edge ''edgeDown'' s of None \<Rightarrow> edgeDownCount a | Some q \<Rightarrow> edgeDownCount a + 1)"
  "maxEdgeDown_acc (aggregate_edges a s) =
     (case finite_edge ''edgeDown'' s of None \<Rightarrow> maxEdgeDown_acc a
      | Some q \<Rightarrow> js_max (maxEdgeDown_acc a) (Fin q))"
  by (simp_all add: aggregate_edges_def aggregate_up_def aggregate_down_def finite_edge_def
      member_falsy Let_def split: jsval.splits jsnum.splits)

lemma aggregate_edges_positive:
  "positiveEdgeCount_acc (aggregate_edges a s) =
     positiveEdgeCount_acc a + positive (finite_edge ''edgeUp'' s)
       + positive (finite_edge ''edgeDown'' s)"
  by (simp add: aggregate_edges_def aggregate_up_def aggregate_down_def finite_edge_def
      positive_def member_falsy Let_def split: jsval.splits jsnum.splits)

lemma scan_step_up:
  "edgeUpSum (scan_step tostr a s) =
     (case finite_edge ''edgeUp'' s of None \<Rightarrow> edgeUpSum a
      | Some q \<Rightarrow> js_add (edgeUpSum a) (Fin q))"
  "edgeUpCount (scan_step tostr a s) =
     (case finite_edge ''edgeUp'' s of None \<Rightarrow> edgeUpCount a | Some q \<Rightarrow> edgeUpCount a + 1)"
  "maxEdgeUp_acc (scan_step tostr a s) =
     (case finite_edge ''edgeUp'' s of None \<Rightarrow> maxEdgeUp_acc a
      | Some q \<Rightarrow> js_max (maxEdgeUp_acc a) (Fin q))"
  by (simp_all add: scan_step_def count_regime_fields aggregate_edges_up count_signal_fields
      split: option.splits)

lemma scan_step_down:
  "edgeDownSum (scan_step tostr a s) =
     (case finite_edge ''edgeDown'' s of None \<Rightarrow> edgeDownSum a
      | Some q \<Rightarrow> js_add (edgeDownSum a) (Fin q))"
  "edgeDownCount (scan_step tostr a s) =
     (case finite_edge ''edgeDown'' s of None \<Rightarrow> edgeDownCount a | Some q \<Rightarrow> edgeDownCount a + 1)"
  "maxEdgeDown_acc (scan_step tostr a s) =
     (case finite_edge ''edgeDown'' s of None \<Rightarrow> maxEdgeDown_acc a
      | Some q \<Rightarrow> js_max (maxEdgeDown_acc a) (Fin q))"
  by (simp_all add: scan_step_def count_regime_fields aggregate_edges_down count_signal_fields
      split: option.splits)

lemma scan_step_positive:
  "positiveEdgeCount_acc (scan_step tostr a s) =
     positiveEdgeCount_acc a + positive (finite_edge ''edgeUp'' s)
       + positive (finite_edge ''edgeDown'' s)"
  by (simp add: scan_step_def count_regime_fields aggregate_edges_positive count_signal_fields)

lemma scan_step_counts:
  "buyUpCount_acc (scan_step tostr a s) =
     buyUpCount_acc a + (if signal_is ''BUY UP'' s then 1 else 0)"
  "buyDownCount_acc (scan_step tostr a s) =
     buyDownCount_acc a + (if signal_is ''BUY DOWN'' s then 1 else 0)"
  "noTradeCount_acc (scan_step tostr a s) =
     noTradeCount_acc a + (if signal_is ''BUY UP'' s \<or> signal_is ''BUY DOWN'' s then 0 else 1)"
  by (simp_all add: scan_step_def count_regime_fields aggregate_edges_counts count_signal_counts)

lemma edge_values_Nil: "edge_values k [] = []"
  by (simp add: edge_values_def)

lemma edge_values_Cons:
  "edge_values k (s # data) =
     (case finite_edge k s of None \<Rightarrow> edge_values k data | Some q \<Rightarrow> q # edge_values k data)"
  by (simp add: edge_values_def split: option.splits)


lemma fold_up:
  "edgeUpSum (foldl (scan_step tostr) a data) =
     foldl js_add (edgeUpSum a) (map Fin (edge_values ''edgeUp'' data)) \<and>
   edgeUpCount (foldl (scan_step tostr) a data) =
     edgeUpCount a + length (edge_values ''edgeUp'' data) \<and>
   maxEdgeUp_acc (foldl (scan_step tostr) a data) =
     foldl js_max (maxEdgeUp_acc a) (map Fin (edge_values ''edgeUp'' data))"
proof (induction data arbitrary: a)
  case Nil
  show ?case by (simp add: edge_values_Nil)
next
  case (Cons s data)
  show ?case
    by (cases "finite_edge ''edgeUp'' s") (simp_all add: Cons.IH scan_step_up edge_values_Cons)
qed

lemma fold_down:
  "edgeDownSum (foldl (scan_step tostr) a data) =
     foldl js_add (edgeDownSum a) (map Fin (edge_values ''edgeDown'' data)) \<and>
   edgeDownCount (foldl (scan_step tostr) a data) =
     edgeDownCount a + length (edge_values ''edgeDown'' data) \<and>
   maxEdgeDown_acc (foldl (scan_step tostr) a data) =
     foldl js_max (maxEdgeDown_acc a) (map Fin (edge_values ''edgeDown'' data))"
proof (induction data arbitrary: a)
  case Nil
  show ?case by (simp add: edge_values_Nil)
next
  case (Cons s data)
  show ?case
    by (cases "finite_edge ''edgeDown'' s") (simp_all add: Cons.IH scan_step_down edge_values_Cons)
qed

lemma fold_positive:
  "positiveEdgeCount_acc (foldl (scan_step tostr) a data) =
     positiveEdgeCount_acc a + length (filter (\<lambda>q. 0 < q) (edge_values ''edgeUp'' data))
       + length (filter (\<lambda>q. 0 < q) (edge_values ''edgeDown'' data))"
proof (induction data arbitrary: a)
  case Nil
  show ?case by (simp add: edge_values_Nil)
next
  case (Cons s data)
  show ?case
    by (cases "finite_edge ''edgeUp'' s"; cases "finite_edge ''edgeDown'' s")
       (simp_all add: Cons.IH scan_step_positive edge_values_Cons positive_def)
qed

lemma fold_counts:
  "buyUpCount_acc (foldl (scan_step tostr) a data) =
     buyUpCount_acc a + length (filter (signal_is ''BUY UP'') data) \<and>
   buyDownCount_acc (foldl (scan_step tostr) a data) =
     buyDownCount_acc a + length (filter (signal_is ''BUY DOWN'') data) \<and>
   noTradeCount_acc (foldl (scan_step tostr) a data) =
     noTradeCount_acc a +
       length (filter (\<lambda>s. \<not> signal_is ''BUY UP'' s \<and> \<not> signal_is ''BUY DOWN'' s) data)"
  by (induction data arbitrary: a) (simp_all add: scan_step_counts)






subsection \<open>The examples, evaluated\<close>

lemma literal_005: "literal (1 / 20) = Fin (3602879701896397 / 72057594037927936)"
  by code_simp

lemma literal_010: "literal (1 / 10) = Fin (3602879701896397 / 36028797018963968)"
  by code_simp

lemma literal_m002: "literal (- (1 / 50)) = Fin (- (5764607523034235 / 288230376151711744))"
  by code_simp

lemma literal_0075: "literal (3 / 40) = Fin (5404319552844595 / 72057594037927936)"
  by code_simp

lemma literal_0075_up:
  "literal (7500000000000001 / 100000000000000000) = Fin (1351079888211149 / 18014398509481984)"
  by code_simp

lemma sum_up:
  "foldl js_add (Fin 0)
     [Fin (3602879701896397 / 72057594037927936), Fin (3602879701896397 / 36028797018963968)] =
   Fin (1351079888211149 / 9007199254740992)"
  by code_simp

lemma js_number_2: "js_number (Suc (Suc 0)) = Fin 2"
  by code_simp

lemma average_up:
  "js_div (Fin (1351079888211149 / 9007199254740992)) (Fin 2) =
   Fin (1351079888211149 / 18014398509481984)"
  by code_simp

lemma getprop_stamp:
  "k \<noteq> ''timestamp'' \<Longrightarrow> k \<noteq> ''_addedAt'' \<Longrightarrow> getprop (stamp now isoStr s) k = getprop s k"
  by (simp add: getprop_def stamp_def update_conv')

lemma finite_edge_stamp: "finite_edge k (stamp now isoStr s) = finite_edge k s"
  by (simp add: finite_edge_def getprop_stamp)

lemma signal_is_stamp: "signal_is l (stamp now isoStr s) = signal_is l s"
  by (simp add: signal_is_def getprop_stamp)

lemma finite_edge_buy_up:
  "finite_edge ''edgeUp'' snap_buy_up = Some (3602879701896397 / 72057594037927936)"
  "finite_edge ''edgeDown'' snap_buy_up = Some (- (5764607523034235 / 288230376151711744))"
  by (simp_all add: finite_edge_def snap_buy_up_def getprop_def literal_005 literal_m002)

lemma finite_edge_no_trade:
  "finite_edge ''edgeUp'' snap_no_trade = Some (3602879701896397 / 36028797018963968)"
  "finite_edge ''edgeDown'' snap_no_trade = None"
  by (simp_all add: finite_edge_def snap_no_trade_def getprop_def literal_010)


lemma signal_examples:
  "signal_is ''BUY UP'' snap_buy_up" "\<not> signal_is ''BUY DOWN'' snap_buy_up"
  "\<not> signal_is ''BUY UP'' snap_no_trade" "\<not> signal_is ''BUY DOWN'' snap_no_trade"
  "\<not> signal_is ''BUY UP'' snap_nan" "\<not> signal_is ''BUY DOWN'' snap_nan"
  by (simp_all add: signal_is_def snap_buy_up_def snap_no_trade_def snap_nan_def getprop_def)

lemma buffer_add_room:
  "length (buffer st) < maxSize st \<Longrightarrow>
   buffer (add st now isoStr s) = buffer st @ [stamp now isoStr s]"
  by (simp add: add_def Let_def)

lemma maxSize_add: "maxSize (add st now isoStr s) = maxSize st"
  by (simp add: add_def Let_def)


lemma buffer_two_adds:
  "2 \<le> N \<Longrightarrow>
   buffer (add (add (DataStore N t0) t1 i1 a) t2 i2 b) = [stamp t1 i1 a, stamp t2 i2 b]"
  by (simp add: buffer_add_room maxSize_add DataStore_def)

lemma buffer_two: "buffer two = [stamp 1 ''t1'' snap_buy_up, stamp 2 ''t2'' snap_no_trade]"
  by (simp add: two_def buffer_two_adds)




subsection \<open>The report in terms of the history\<close>

lemma scan_getAll:
  "edgeUpSum (scan tostr data) = foldl js_add (Fin 0) (map Fin (edge_values ''edgeUp'' data))"
  "edgeUpCount (scan tostr data) = length (edge_values ''edgeUp'' data)"
  "maxEdgeUp_acc (scan tostr data) = foldl js_max NInf (map Fin (edge_values ''edgeUp'' data))"
  "edgeDownSum (scan tostr data) = foldl js_add (Fin 0) (map Fin (edge_values ''edgeDown'' data))"
  "edgeDownCount (scan tostr data) = length (edge_values ''edgeDown'' data)"
  "maxEdgeDown_acc (scan tostr data) = foldl js_max NInf (map Fin (edge_values ''edgeDown'' data))"
  "positiveEdgeCount_acc (scan tostr data) =
     length (filter (\<lambda>q. 0 < q) (edge_values ''edgeUp'' data)) +
     length (filter (\<lambda>q. 0 < q) (edge_values ''edgeDown'' data))"
  "buyUpCount_acc (scan tostr data) = length (filter (signal_is ''BUY UP'') data)"
  "buyDownCount_acc (scan tostr data) = length (filter (signal_is ''BUY DOWN'') data)"
  "noTradeCount_acc (scan tostr data) =
     length (filter (\<lambda>s. \<not> signal_is ''BUY UP'' s \<and> \<not> signal_is ''BUY DOWN'' s) data)"
  by (simp_all add: scan_def fold_up fold_down fold_positive fold_counts perf_init_def)

lemma performance_fields:
  "totalSignals (performance st tostr) = length (buffer st)"
  "buyUpCount (performance st tostr) = length (filter (signal_is ''BUY UP'') (buffer st))"
  "buyDownCount (performance st tostr) = length (filter (signal_is ''BUY DOWN'') (buffer st))"
  "noTradeCount (performance st tostr) =
     length (filter (\<lambda>s. \<not> signal_is ''BUY UP'' s \<and> \<not> signal_is ''BUY DOWN'' s) (buffer st))"
  "positiveEdgeCount (performance st tostr) =
     length (filter (\<lambda>q. 0 < q) (edge_values ''edgeUp'' (buffer st))) +
     length (filter (\<lambda>q. 0 < q) (edge_values ''edgeDown'' (buffer st)))"
  by (simp_all add: performance_def report_of_def getAll_def scan_getAll Let_def edge_values_Nil)

lemma performance_average:
  "averageEdgeUp (performance st tostr) =
     (if edge_values ''edgeUp'' (buffer st) = [] then None
      else Some (js_div (foldl js_add (Fin 0) (map Fin (edge_values ''edgeUp'' (buffer st))))
                   (js_number (length (edge_values ''edgeUp'' (buffer st))))))"
  "averageEdgeDown (performance st tostr) =
     (if edge_values ''edgeDown'' (buffer st) = [] then None
      else Some (js_div (foldl js_add (Fin 0) (map Fin (edge_values ''edgeDown'' (buffer st))))
                   (js_number (length (edge_values ''edgeDown'' (buffer st))))))"
  by (auto simp: performance_def report_of_def getAll_def scan_getAll Let_def edge_values_Nil)







text \<open>
  C6. On an empty history the report has all counts zero, all averages and maxima
  \<open>null\<close> and an empty regime distribution; the handler has no failing branch.
\<close>

theorem performance_empty:
  "buffer st = [] \<Longrightarrow>
   performance st tostr =
     \<lparr>totalSignals = 0, buyUpCount = 0, buyDownCount = 0, noTradeCount = 0,
      averageEdgeUp = None, averageEdgeDown = None, maxEdgeUp = None, maxEdgeDown = None,
      positiveEdgeCount = 0, regimeDistribution = []\<rparr>"
  by (simp add: performance_def getAll_def)

theorem performance_empty_witness:
  "performance (DataStore 3600 0) object_label =
     \<lparr>totalSignals = 0, buyUpCount = 0, buyDownCount = 0, noTradeCount = 0,
      averageEdgeUp = None, averageEdgeDown = None, maxEdgeUp = None, maxEdgeDown = None,
      positiveEdgeCount = 0, regimeDistribution = []\<rparr>"
  using performance_empty [of "DataStore 3600 0" object_label]
  by (simp add: DataStore_def)



lemma edge_values_two_adds:
  "edge_values ''edgeUp'' [stamp t1 i1 snap_buy_up, stamp t2 i2 snap_no_trade] =
     [3602879701896397 / 72057594037927936, 3602879701896397 / 36028797018963968]"
  "edge_values ''edgeDown'' [stamp t1 i1 snap_buy_up, stamp t2 i2 snap_no_trade] =
     [- (5764607523034235 / 288230376151711744)]"
  by (simp_all add: edge_values_Cons edge_values_Nil finite_edge_stamp finite_edge_buy_up
      finite_edge_no_trade)

text \<open>
  C9 (as amended). After appending the two snapshots to a new store of capacity at least
  2, the report has \<open>buyUpCount = 1\<close>, \<open>noTradeCount = 1\<close>, \<open>positiveEdgeCount = 2\<close>
  and \<open>averageEdgeUp = 0.07500000000000001\<close>: the binary64 sum of 0.05 and 0.10 is
  0.15000000000000002, and half of it is one unit in the last place above 0.075.
\<close>

theorem scenario_report:
  "2 \<le> N \<Longrightarrow>
   buyUpCount (performance (add (add (DataStore N t0) t1 i1 snap_buy_up) t2 i2 snap_no_trade) tostr)
     = 1 \<and>
   noTradeCount (performance (add (add (DataStore N t0) t1 i1 snap_buy_up) t2 i2 snap_no_trade) tostr)
     = 1 \<and>
   positiveEdgeCount
     (performance (add (add (DataStore N t0) t1 i1 snap_buy_up) t2 i2 snap_no_trade) tostr) = 2 \<and>
   averageEdgeUp
     (performance (add (add (DataStore N t0) t1 i1 snap_buy_up) t2 i2 snap_no_trade) tostr) =
     Some (literal (7500000000000001 / 100000000000000000))"
proof -
  assume N: "2 \<le> N"
  let ?st = "add (add (DataStore N t0) t1 i1 snap_buy_up) t2 i2 snap_no_trade"
  have b: "buffer ?st = [stamp t1 i1 snap_buy_up, stamp t2 i2 snap_no_trade]"
    using N by (rule buffer_two_adds)
  have c: "buyUpCount (performance ?st tostr) = 1" "noTradeCount (performance ?st tostr) = 1"
    by (simp_all add: performance_fields b signal_is_stamp signal_examples)
  have p: "positiveEdgeCount (performance ?st tostr) = 2"
    by (simp add: performance_fields b edge_values_two_adds)
  have "averageEdgeUp (performance ?st tostr) =
      Some (js_div (foldl js_add (Fin 0)
        [Fin (3602879701896397 / 72057594037927936), Fin (3602879701896397 / 36028797018963968)])
        (js_number (Suc (Suc 0))))"
    by (simp add: performance_average b edge_values_two_adds del: foldl.simps js_add.simps)
  then have a: "averageEdgeUp (performance ?st tostr) =
      Some (literal (7500000000000001 / 100000000000000000))"
    by (simp only: sum_up js_number_2 average_up literal_0075_up)
  from c p a show ?thesis by simp
qed

theorem scenario_report_witness:
  "buyUpCount (performance two object_label) = 1 \<and>
   noTradeCount (performance two object_label) = 1 \<and>
   positiveEdgeCount (performance two object_label) = 2 \<and>
   averageEdgeUp (performance two object_label) =
     Some (literal (7500000000000001 / 100000000000000000))"
  using scenario_report [of 3600 0 1 "''t1''" 2 "''t2''" object_label]
  by (simp add: two_def)

lemma average_two:
  "averageEdgeUp (performance two tostr) = Some (Fin (1351079888211149 / 18014398509481984))"
proof -
  have "averageEdgeUp (performance two tostr) =
      Some (js_div (foldl js_add (Fin 0)
        [Fin (3602879701896397 / 72057594037927936), Fin (3602879701896397 / 36028797018963968)])
        (js_number (Suc (Suc 0))))"
    by (simp add: performance_average buffer_two edge_values_two_adds
        del: foldl.simps js_add.simps)
  then show ?thesis
    by (simp only: sum_up js_number_2 average_up)
qed

text \<open>
  C9 as stated fails in \<open>averageEdgeUp\<close>, which is not the number 0.075.
\<close>

theorem scenario_average_not_0075:
  "averageEdgeUp (performance two object_label) \<noteq> Some (literal (75 / 1000))"
  by (simp add: average_two literal_0075)

section \<open>The push channel: fan-out\<close>

lemma ws_send_fields:
  "readyState (fst (ws_send w m)) = readyState w"
  "sendThrows (fst (ws_send w m)) = sendThrows w"
  "isAlive (fst (ws_send w m)) = isAlive w"
  "attempted (fst (ws_send w m)) = attempted w @ [m]"
  "delivered (fst (ws_send w m)) = (if sendThrows w then delivered w else delivered w @ [m])"
  "snd (ws_send w m) = (\<not> sendThrows w)"
  by (simp_all add: ws_send_def)

lemma is_open_send: "is_open (fst (ws_send w m)) = is_open w"
  by (simp add: is_open_def ws_send_fields)

lemma broadcast_client_eq:
  "broadcast_client m (h, sc, fc) c =
     (if is_open (h c)
      then (h(c := fst (ws_send (h c) m)),
            if sendThrows (h c) then sc else sc + 1,
            if sendThrows (h c) then fc + 1 else fc)
      else (h, sc, fc))"
  by (simp add: broadcast_client_def ws_send_def is_open_def)

lemma broadcast_fold:
  "distinct cs \<Longrightarrow>
   foldl (broadcast_client m) (h, sc, fc) cs =
     (\<lambda>c. if c \<in> set cs \<and> is_open (h c) then fst (ws_send (h c) m) else h c,
      sc + length (filter (\<lambda>c. is_open (h c) \<and> \<not> sendThrows (h c)) cs),
      fc + length (filter (\<lambda>c. is_open (h c) \<and> sendThrows (h c)) cs))"
proof (induction cs arbitrary: h sc fc)
  case Nil
  show ?case by simp
next
  case (Cons c cs)
  then have d: "distinct cs" and n: "c \<notin> set cs" by simp_all
  show ?case
  proof (cases "is_open (h c)")
    case True
    let ?h = "h(c := fst (ws_send (h c) m))"
    have f1: "filter (\<lambda>x. is_open (?h x) \<and> \<not> sendThrows (?h x)) cs =
        filter (\<lambda>x. is_open (h x) \<and> \<not> sendThrows (h x)) cs"
      using n by (intro filter_cong) auto
    have f2: "filter (\<lambda>x. is_open (?h x) \<and> sendThrows (?h x)) cs =
        filter (\<lambda>x. is_open (h x) \<and> sendThrows (h x)) cs"
      using n by (intro filter_cong) auto
    have hh: "(\<lambda>x. if x \<in> set cs \<and> is_open (?h x) then fst (ws_send (?h x) m) else ?h x) =
        (\<lambda>x. if (x = c \<or> x \<in> set cs) \<and> is_open (h x) then fst (ws_send (h x) m) else h x)"
      using n True by (auto simp: fun_eq_iff)
    have "foldl (broadcast_client m) (h, sc, fc) (c # cs) =
        foldl (broadcast_client m)
          (?h, if sendThrows (h c) then sc else sc + 1, if sendThrows (h c) then fc + 1 else fc) cs"
      using True by (simp add: broadcast_client_eq)
    also have "\<dots> =
        (\<lambda>x. if x \<in> set cs \<and> is_open (?h x) then fst (ws_send (?h x) m) else ?h x,
         (if sendThrows (h c) then sc else sc + 1) +
           length (filter (\<lambda>x. is_open (?h x) \<and> \<not> sendThrows (?h x)) cs),
         (if sendThrows (h c) then fc + 1 else fc) +
           length (filter (\<lambda>x. is_open (?h x) \<and> sendThrows (?h x)) cs))"
      by (rule Cons.IH [OF d])
    also have "\<dots> =
        (\<lambda>x. if x \<in> set (c # cs) \<and> is_open (h x) then fst (ws_send (h x) m) else h x,
         sc + length (filter (\<lambda>x. is_open (h x) \<and> \<not> sendThrows (h x)) (c # cs)),
         fc + length (filter (\<lambda>x. is_open (h x) \<and> sendThrows (h x)) (c # cs)))"
      using True by (simp only: f1 f2 hh) simp
    finally show ?thesis .
  next
    case False
    then show ?thesis
      by (auto simp: broadcast_client_eq Cons.IH [OF d] fun_eq_iff)
  qed
qed

lemma clients_broadcast: "clients (fst (broadcast ch data now)) = clients ch"
  by (simp add: broadcast_def split: prod.splits)

lemma broadcast_eq:
  "distinct (clients ch) \<Longrightarrow>
   broadcast ch data now =
     (ch\<lparr>sockets := (\<lambda>c. if c \<in> set (clients ch) \<and> is_open (sockets ch c)
                          then fst (ws_send (sockets ch c) (UpdateMsg data now))
                          else sockets ch c)\<rparr>,
      length (filter (\<lambda>c. is_open (sockets ch c) \<and> \<not> sendThrows (sockets ch c)) (clients ch)),
      length (filter (\<lambda>c. is_open (sockets ch c) \<and> sendThrows (sockets ch c)) (clients ch)))"
  by (simp add: broadcast_def broadcast_fold)

lemma three_clients_fields:
  "clients three_clients = [10, 20, 30]"
  "sockets three_clients 10 = open_socket"
  "sockets three_clients 20 = open_socket\<lparr>sendThrows := True\<rparr>"
  "sockets three_clients 30 = open_socket"
  by (simp_all add: three_clients_def)

lemma open_socket_fields:
  "readyState open_socket = 1" "sendThrows open_socket = False"
  "attempted open_socket = []" "delivered open_socket = []"
  by (simp_all add: open_socket_def)

text \<open>
  C4 (as amended). When \<open>send\<close> throws for a consumer during a broadcast, the exception
  is caught and the failure counted; the broadcast changes nothing in the registry, so the
  consumer stays in it; and every open consumer whose \<open>send\<close> does not throw receives
  the update message, once.
\<close>

theorem broadcast_isolates_failures:
  "distinct (clients ch) \<Longrightarrow>
   clients (fst (broadcast ch data now)) = clients ch \<and>
   (\<forall>c \<in> set (clients ch).
      readyState (sockets ch c) = 1 \<and> \<not> sendThrows (sockets ch c) \<longrightarrow>
      delivered (sockets (fst (broadcast ch data now)) c) =
        delivered (sockets ch c) @ [UpdateMsg data now]) \<and>
   (\<forall>c \<in> set (clients ch).
      readyState (sockets ch c) = 1 \<and> sendThrows (sockets ch c) \<longrightarrow>
      delivered (sockets (fst (broadcast ch data now)) c) = delivered (sockets ch c) \<and>
      c \<in> set (clients (fst (broadcast ch data now)))) \<and>
   fst (snd (broadcast ch data now)) =
     length (filter (\<lambda>c. readyState (sockets ch c) = 1 \<and> \<not> sendThrows (sockets ch c))
       (clients ch)) \<and>
   snd (snd (broadcast ch data now)) =
     length (filter (\<lambda>c. readyState (sockets ch c) = 1 \<and> sendThrows (sockets ch c))
       (clients ch))"
  by (simp add: broadcast_eq ws_send_fields is_open_def)

theorem broadcast_isolates_failures_witness:
  "delivered (sockets (fst (broadcast three_clients snap_buy_up 7)) 10) = [UpdateMsg snap_buy_up 7] \<and>
   delivered (sockets (fst (broadcast three_clients snap_buy_up 7)) 20) = [] \<and>
   delivered (sockets (fst (broadcast three_clients snap_buy_up 7)) 30) = [UpdateMsg snap_buy_up 7] \<and>
   snd (broadcast three_clients snap_buy_up 7) = (2, 1)"
  using broadcast_isolates_failures [of three_clients snap_buy_up 7]
  by (simp add: three_clients_fields open_socket_fields prod_eq_iff)

text \<open>
  C4 as stated fails in that the failing consumer is not dropped: with three open
  consumers of which the second throws on \<open>send\<close>, the registry after the broadcast still
  holds all three.
\<close>

theorem broadcast_keeps_failing_client:
  "readyState (sockets three_clients 20) = 1 \<and> sendThrows (sockets three_clients 20) \<and>
   clients (fst (broadcast three_clients snap_buy_up 7)) = [10, 20, 30]"
  by (simp add: clients_broadcast three_clients_fields open_socket_fields)

section \<open>The push channel: the first message of a connection\<close>

lemma no_snapshot_simps:
  "no_snapshot []" "no_snapshot [UpdateMsg d n]" "no_snapshot [PongMsg n]"
  "no_snapshot (xs @ ys) = (no_snapshot xs \<and> no_snapshot ys)"
  by (simp_all add: no_snapshot_def)

lemma update_socket_other:
  "ws' \<noteq> ws \<Longrightarrow> sockets (update_socket ch ws' f) ws = sockets ch ws"
  by (simp add: update_socket_def)

lemma update_socket_same: "sockets (update_socket ch ws f) ws = f (sockets ch ws)"
  by (simp add: update_socket_def)

lemma broadcast_fold_attempted:
  "\<exists>ext. attempted (fst (foldl (broadcast_client (UpdateMsg d n)) (h, sc, fc) cs) ws) =
           attempted (h ws) @ ext \<and> no_snapshot ext"
proof (induction cs arbitrary: h sc fc)
  case Nil
  show ?case by (simp add: no_snapshot_simps)
next
  case (Cons c cs)
  obtain h' sc' fc' where b: "broadcast_client (UpdateMsg d n) (h, sc, fc) c = (h', sc', fc')"
    by (cases "broadcast_client (UpdateMsg d n) (h, sc, fc) c")
  have "attempted (h' ws) = attempted (h ws) \<or>
      attempted (h' ws) = attempted (h ws) @ [UpdateMsg d n]"
    using b by (auto simp: broadcast_client_eq ws_send_fields split: if_splits)
  then obtain e1 where e1: "attempted (h' ws) = attempted (h ws) @ e1" "no_snapshot e1"
    by (auto simp: no_snapshot_simps)
  from Cons.IH [of h' sc' fc'] obtain e2 where
    e2: "attempted (fst (foldl (broadcast_client (UpdateMsg d n)) (h', sc', fc') cs) ws) =
           attempted (h' ws) @ e2" "no_snapshot e2"
    by blast
  show ?case
    using e1 e2 b by (intro exI [of _ "e1 @ e2"]) (simp add: no_snapshot_simps)
qed

lemma broadcast_fold_delivered:
  "\<exists>ext. delivered (fst (foldl (broadcast_client (UpdateMsg d n)) (h, sc, fc) cs) ws) =
           delivered (h ws) @ ext \<and> no_snapshot ext"
proof (induction cs arbitrary: h sc fc)
  case Nil
  show ?case by (simp add: no_snapshot_simps)
next
  case (Cons c cs)
  obtain h' sc' fc' where b: "broadcast_client (UpdateMsg d n) (h, sc, fc) c = (h', sc', fc')"
    by (cases "broadcast_client (UpdateMsg d n) (h, sc, fc) c")
  have "delivered (h' ws) = delivered (h ws) \<or>
      delivered (h' ws) = delivered (h ws) @ [UpdateMsg d n]"
    using b by (auto simp: broadcast_client_eq ws_send_fields split: if_splits)
  then obtain e1 where e1: "delivered (h' ws) = delivered (h ws) @ e1" "no_snapshot e1"
    by (auto simp: no_snapshot_simps)
  from Cons.IH [of h' sc' fc'] obtain e2 where
    e2: "delivered (fst (foldl (broadcast_client (UpdateMsg d n)) (h', sc', fc') cs) ws) =
           delivered (h' ws) @ e2" "no_snapshot e2"
    by blast
  show ?case
    using e1 e2 b by (intro exI [of _ "e1 @ e2"]) (simp add: no_snapshot_simps)
qed

lemma sockets_broadcast:
  "sockets (fst (broadcast ch d n)) =
     fst (foldl (broadcast_client (UpdateMsg d n)) (sockets ch, 0, 0) (clients ch))"
  by (simp add: broadcast_def split: prod.splits)

lemma step_extends:
  assumes "e \<noteq> Connect ws"
  shows "(\<exists>ext. attempted (sockets (chan (step s e)) ws) =
                  attempted (sockets (chan s) ws) @ ext \<and> no_snapshot ext) \<and>
         (\<exists>ext. delivered (sockets (chan (step s e)) ws) =
                  delivered (sockets (chan s) ws) @ ext \<and> no_snapshot ext)"
proof (cases e)
  case (Add now isoStr snapshot)
  then show ?thesis by (simp add: no_snapshot_simps)
next
  case (Broadcast d n)
  then show ?thesis
    using broadcast_fold_attempted [of d n "sockets (chan s)" 0 0 "clients (chan s)" ws]
      broadcast_fold_delivered [of d n "sockets (chan s)" 0 0 "clients (chan s)" ws]
    by (simp add: sockets_broadcast)
next
  case (Connect ws')
  with assms have ne: "ws' \<noteq> ws" by simp
  show ?thesis
    using ne Connect
    by (simp add: connection_def Let_def update_socket_other no_snapshot_simps
        split: option.splits)
next
  case (Message ws' parsed now)
  show ?thesis
  proof (cases "ws' = ws")
    case True
    have "attempted (sockets (on_message (chan s) ws parsed now) ws) =
            attempted (sockets (chan s) ws) \<or>
          attempted (sockets (on_message (chan s) ws parsed now) ws) =
            attempted (sockets (chan s) ws) @ [PongMsg now]"
      by (simp add: on_message_def update_socket_same ws_send_fields split: option.splits)
    moreover have "delivered (sockets (on_message (chan s) ws parsed now) ws) =
            delivered (sockets (chan s) ws) \<or>
          delivered (sockets (on_message (chan s) ws parsed now) ws) =
            delivered (sockets (chan s) ws) @ [PongMsg now]"
      by (simp add: on_message_def update_socket_same ws_send_fields split: option.splits)
    ultimately show ?thesis
      using True Message by (auto simp: no_snapshot_simps)
  next
    case False
    then show ?thesis
      using Message
      by (simp add: on_message_def update_socket_other no_snapshot_simps split: option.splits)
  qed
next
  case (Close ws')
  then show ?thesis by (simp add: on_close_def no_snapshot_simps)
next
  case (Error ws')
  then show ?thesis by (simp add: on_error_def no_snapshot_simps)
next
  case (Transport ws' rs throws)
  then show ?thesis
    by (cases "ws' = ws") (simp_all add: update_socket_def no_snapshot_simps)
qed

lemma run_extends:
  "Connect ws \<notin> set evs \<Longrightarrow>
   (\<exists>ext. attempted (sockets (chan (run s evs)) ws) =
            attempted (sockets (chan s) ws) @ ext \<and> no_snapshot ext) \<and>
   (\<exists>ext. delivered (sockets (chan (run s evs)) ws) =
            delivered (sockets (chan s) ws) @ ext \<and> no_snapshot ext)"
proof (induction evs arbitrary: s)
  case Nil
  show ?case by (simp add: run_def no_snapshot_simps)
next
  case (Cons e evs)
  then have e: "e \<noteq> Connect ws" and r: "Connect ws \<notin> set evs" by auto
  from step_extends [OF e, of s] obtain a1 d1 where
    1: "attempted (sockets (chan (step s e)) ws) = attempted (sockets (chan s) ws) @ a1"
       "no_snapshot a1"
       "delivered (sockets (chan (step s e)) ws) = delivered (sockets (chan s) ws) @ d1"
       "no_snapshot d1"
    by blast
  from Cons.IH [OF r, of "step s e"] obtain a2 d2 where
    2: "attempted (sockets (chan (run (step s e) evs)) ws) =
          attempted (sockets (chan (step s e)) ws) @ a2" "no_snapshot a2"
       "delivered (sockets (chan (run (step s e) evs)) ws) =
          delivered (sockets (chan (step s e)) ws) @ d2" "no_snapshot d2"
    by blast
  have "run s (e # evs) = run (step s e) evs" by (simp add: run_def)
  with 1 2 show ?case
    by (simp add: no_snapshot_simps)
qed

lemma getLast_eq:
  "getLast st = (if buffer st = [] then None else Some (last (buffer st)))"
  by (simp add: getLast_def last_conv_nth)

lemma connection_socket:
  "sockets (connection st ch ws) ws =
     (case getLast st of
        None \<Rightarrow> sockets ch ws
      | Some current \<Rightarrow> fst (ws_send (sockets ch ws) (SnapshotMsg current)))\<lparr>isAlive := True\<rparr>"
  by (simp add: connection_def Let_def update_socket_def split: option.splits)

lemma distinct_set_add: "distinct xs \<Longrightarrow> distinct (set_add x xs)"
  by (simp add: set_add_def)

lemma distinct_step: "distinct (clients (chan s)) \<Longrightarrow> distinct (clients (chan (step s e)))"
  by (cases e)
     (simp_all add: clients_broadcast connection_def Let_def update_socket_def distinct_set_add
       on_message_def on_close_def on_error_def set_delete_def distinct_removeAll
       split: option.splits)

text \<open>
  C8. A socket connects on which nothing was sent yet, and other events follow, none of
  them a second connection of that socket. If the history is not empty at the connection,
  \<open>getLast\<close> is its last snapshot, the handler sends exactly the message
  \<open>{type: "snapshot", data: getLast()}\<close>, and whatever is sent on the socket afterwards
  comes after it and is no snapshot message: the first message is the snapshot, and every
  update follows it. The same holds of the messages the socket accepted, if its \<open>send\<close>
  does not throw at the connection. If the history is empty, the handler sends nothing and
  no snapshot message is sent later.
\<close>

theorem connection_sends_snapshot_first:
  "attempted (sockets (chan s) ws) = [] \<Longrightarrow> Connect ws \<notin> set evs \<Longrightarrow>
   (buffer (store s) \<noteq> [] \<longrightarrow> getLast (store s) = Some (last (buffer (store s)))) \<and>
   (getLast (store s) = Some current \<longrightarrow>
      attempted (sockets (chan (step s (Connect ws))) ws) = [SnapshotMsg current] \<and>
      take 1 (attempted (sockets (chan (run (step s (Connect ws)) evs)) ws)) =
        [SnapshotMsg current] \<and>
      no_snapshot (drop 1 (attempted (sockets (chan (run (step s (Connect ws)) evs)) ws))) \<and>
      (\<not> sendThrows (sockets (chan s) ws) \<and> delivered (sockets (chan s) ws) = [] \<longrightarrow>
         delivered (sockets (chan (step s (Connect ws))) ws) = [SnapshotMsg current] \<and>
         take 1 (delivered (sockets (chan (run (step s (Connect ws)) evs)) ws)) =
           [SnapshotMsg current] \<and>
         no_snapshot (drop 1 (delivered (sockets (chan (run (step s (Connect ws)) evs)) ws))))) \<and>
   (buffer (store s) = [] \<longrightarrow>
      getLast (store s) = None \<and>
      attempted (sockets (chan (step s (Connect ws))) ws) = [] \<and>
      no_snapshot (attempted (sockets (chan (run (step s (Connect ws)) evs)) ws)))"
proof -
  assume fresh: "attempted (sockets (chan s) ws) = []" and once: "Connect ws \<notin> set evs"
  let ?s1 = "step s (Connect ws)"
  from run_extends [OF once, of ?s1] obtain a d where
    a: "attempted (sockets (chan (run ?s1 evs)) ws) = attempted (sockets (chan ?s1) ws) @ a"
       "no_snapshot a"
    and d: "delivered (sockets (chan (run ?s1 evs)) ws) = delivered (sockets (chan ?s1) ws) @ d"
       "no_snapshot d"
    by blast
  have some: "attempted (sockets (chan ?s1) ws) = [SnapshotMsg current]"
    if "getLast (store s) = Some current"
    using that fresh by (simp add: connection_socket ws_send_fields)
  have some_d: "delivered (sockets (chan ?s1) ws) = [SnapshotMsg current]"
    if "getLast (store s) = Some current" "\<not> sendThrows (sockets (chan s) ws)"
      "delivered (sockets (chan s) ws) = []"
    using that by (simp add: connection_socket ws_send_fields)
  have none: "attempted (sockets (chan ?s1) ws) = []"
    if "buffer (store s) = []"
    using that fresh by (simp add: connection_socket getLast_eq)
  show ?thesis
    using a d some some_d none by (auto simp: getLast_eq no_snapshot_simps)
qed

theorem connection_sends_snapshot_first_witness:
  "take 1 (attempted (sockets (chan (run (step running (Connect 40))
      [Add 3 ''t3'' snap_nan, Broadcast snap_nan 3,
       Message 40 (Some (Obj [(''type'', Str ''ping'')])) 4])) 40)) =
     [SnapshotMsg (stamp 2 ''t2'' snap_no_trade)] \<and>
   no_snapshot (drop 1 (attempted (sockets (chan (run (step running (Connect 40))
      [Add 3 ''t3'' snap_nan, Broadcast snap_nan 3,
       Message 40 (Some (Obj [(''type'', Str ''ping'')])) 4])) 40)))"
  using connection_sends_snapshot_first [of running 40
      "[Add 3 ''t3'' snap_nan, Broadcast snap_nan 3,
        Message 40 (Some (Obj [(''type'', Str ''ping'')])) 4]"
      "stamp 2 ''t2'' snap_no_trade"]
  by (simp add: running_def three_clients_def open_socket_fields getLast_eq buffer_two)

end
